theory Spec2Isabelle
  imports Main "HOL-Library.AList"
begin

section \<open>Prefix detection: \<open>Metadata._prefix_pattern\<close> and \<open>Metadata._get_prefix\<close>\<close>

text \<open>
  Keys are Python strings, modelled as \<^typ>\<open>string\<close> (code points below 256).
  The pattern of \<^verbatim>\<open>jobmetadata.py\<close> is \<^verbatim>\<open>^(\S+\.\S+)\.\<close>, used through
  \<^verbatim>\<open>match\<close> (anchored at the start of the key); \<^verbatim>\<open>group(0)\<close> is the matched text.

  \<open>is_space\<close> is the class \<^verbatim>\<open>\s\<close> of a Python 3 string pattern restricted to code points
  below 256: tab, line feed, vertical tab, form feed, carriage return, the separators
  0x1C to 0x1F, the blank, 0x85 and 0xA0.
\<close>

definition is_space :: "char \<Rightarrow> bool" where
  "is_space c = (of_char c \<in> {9, 10, 11, 12, 13, 28, 29, 30, 31, 32, 133, 160 :: nat})"

text \<open>
  The atoms of the pattern: \<^verbatim>\<open>\S+\<close> (one or more characters that are not white space,
  greedy) and an escaped literal character.
\<close>

datatype atom = NonSpacePlus | Lit char

text \<open>
  \<open>greedy cont s k\<close> is the backtracking of a greedy \<^verbatim>\<open>+\<close>: the repetition takes
  \<open>k\<close> characters first, the rest of the pattern (\<open>cont\<close>) is tried on what remains, and on
  failure the repetition gives one character back, down to one character.
\<close>

fun greedy :: "(string \<Rightarrow> string option) \<Rightarrow> string \<Rightarrow> nat \<Rightarrow> string option" where
  "greedy cont s 0 = None"
| "greedy cont s (Suc k) =
     (case cont (drop (Suc k) s) of
        Some m \<Rightarrow> Some (take (Suc k) s @ m)
      | None \<Rightarrow> greedy cont s k)"

text \<open>
  \<open>rmatch p s\<close> matches the sequence of atoms \<open>p\<close> at the start of \<open>s\<close> the way the
  backtracking matcher of \<^verbatim>\<open>re\<close> does and returns the text of the first match found.
\<close>

primrec rmatch :: "atom list \<Rightarrow> string \<Rightarrow> string option" where
  "rmatch [] = (\<lambda>s. Some [])"
| "rmatch (a # p) = (\<lambda>s.
     case a of
       Lit c \<Rightarrow>
         (case s of
            [] \<Rightarrow> None
          | x # xs \<Rightarrow> if x = c then map_option (Cons x) (rmatch p xs) else None)
     | NonSpacePlus \<Rightarrow>
         greedy (rmatch p) s (length (takeWhile (\<lambda>x. \<not> is_space x) s)))"

definition prefix_pattern :: "atom list" where
  "prefix_pattern = [NonSpacePlus, Lit (CHR ''.''), NonSpacePlus, Lit (CHR ''.'')]"

definition get_prefix :: "string \<Rightarrow> string option" where
  "get_prefix key = rmatch prefix_pattern key"

text \<open>\<^verbatim>\<open>prefix.rstrip('.')\<close>: every trailing dot is removed.\<close>

definition rstrip_dot :: "string \<Rightarrow> string" where
  "rstrip_dot s = rev (dropWhile (\<lambda>c. c = CHR ''.'') (rev s))"

section \<open>Names, measurements and Python objects\<close>

datatype error = KeyError | TypeError | AttributeError

text \<open>
  Modelled from the spec: the \<^verbatim>\<open>Name\<close> value type of \<^verbatim>\<open>naming.py\<close>, which is not among the
  sources. A name identifies either a metric or a plain key, carries its canonical string,
  and is compared by it; \<open>is_metric\<close> tells the two kinds apart. \<^verbatim>\<open>Name(metric=key)\<close>, the
  normalisation of a bare string by the measurement set, builds the metric name of that
  string; \<open>name_str\<close> is \<^verbatim>\<open>str(name)\<close>.
\<close>

datatype name = MetricName string | PlainName string

fun is_metric :: "name \<Rightarrow> bool" where
  "is_metric (MetricName s) = True"
| "is_metric (PlainName s) = False"

fun name_str :: "name \<Rightarrow> string" where
  "name_str (MetricName s) = s"
| "name_str (PlainName s) = s"

text \<open>
  Modelled from the spec: a \<^verbatim>\<open>Measurement\<close> (\<^verbatim>\<open>measurement.py\<close> is not among the sources)
  is one recorded value for a metric and owns an annotation store. Only what the code under
  study reads is kept: the metric the measurement declares, and the identity of the
  dictionary \<^verbatim>\<open>notes._data\<close> behind its annotation store, a reference into the store of
  dictionaries of the state below.
\<close>

type_synonym ref = nat

record measurement =
  metric :: string
  notes_data :: ref

definition metric_name :: "measurement \<Rightarrow> name" where
  "metric_name m = MetricName (metric m)"

text \<open>
  A key handed to the measurement set is a \<^verbatim>\<open>Name\<close> instance or a bare string. A value
  handed to it is a \<^verbatim>\<open>Measurement\<close> or some other object; of another object only the
  attribute \<^verbatim>\<open>metric_name\<close> can be read by the code (by \<^verbatim>\<open>insert\<close> and the constructor), so
  the model keeps that attribute, when the object has one.
\<close>

datatype key = KName name | KStr string

datatype pyobj = Meas measurement | Other "key option"

fun as_name :: "key \<Rightarrow> name" where
  "as_name (KName n) = n"
| "as_name (KStr s) = MetricName s"

fun attr_metric_name :: "pyobj \<Rightarrow> key option" where
  "attr_metric_name (Meas m) = Some (KName (metric_name m))"
| "attr_metric_name (Other a) = a"

section \<open>\<open>MeasurementSet\<close>\<close>

text \<open>
  \<^verbatim>\<open>MeasurementSet._items\<close> is a Python dictionary from names to measurements: an
  association list in insertion order, updated with \<^const>\<open>AList.update\<close> (an existing key keeps
  its place, a new key goes last) and \<^const>\<open>AList.delete\<close>.
\<close>

type_synonym items = "(name \<times> measurement) list"

definition ms_setitem :: "key \<Rightarrow> pyobj \<Rightarrow> items \<Rightarrow> error + items" where
  "ms_setitem k v its =
     (let key = as_name k in
      if \<not> is_metric key then Inl KeyError
      else case v of
        Other a \<Rightarrow> Inl TypeError
      | Meas m \<Rightarrow>
          if key \<noteq> metric_name m then Inl KeyError
          else Inr (AList.update key m its))"

definition ms_getitem :: "key \<Rightarrow> items \<Rightarrow> error + measurement" where
  "ms_getitem k its =
     (case map_of its (as_name k) of
        None \<Rightarrow> Inl KeyError
      | Some m \<Rightarrow> Inr m)"

definition ms_contains :: "key \<Rightarrow> items \<Rightarrow> bool" where
  "ms_contains k its = (map_of its (as_name k) \<noteq> None)"

definition ms_delitem :: "key \<Rightarrow> items \<Rightarrow> error + items" where
  "ms_delitem k its =
     (case map_of its (as_name k) of
        None \<Rightarrow> Inl KeyError
      | Some m \<Rightarrow> Inr (AList.delete (as_name k) its))"

definition ms_len :: "items \<Rightarrow> nat" where
  "ms_len its = length its"

definition ms_iter :: "items \<Rightarrow> name list" where
  "ms_iter its = map fst its"

definition ms_items :: "items \<Rightarrow> (name \<times> measurement) list" where
  "ms_items its = its"

definition ms_insert :: "pyobj \<Rightarrow> items \<Rightarrow> error + items" where
  "ms_insert measurement its =
     (case attr_metric_name measurement of
        None \<Rightarrow> Inl AttributeError
      | Some k \<Rightarrow> ms_setitem k measurement its)"

text \<open>
  The constructor: \<^verbatim>\<open>measurements\<close> defaults to \<^verbatim>\<open>None\<close> and is iterated as it is, so
  \<^verbatim>\<open>None\<close> raises a type error; a list is inserted element by element, and the first
  insertion that raises ends the construction.
\<close>

fun ms_init_loop :: "pyobj list \<Rightarrow> items \<Rightarrow> error + items" where
  "ms_init_loop [] its = Inr its"
| "ms_init_loop (measurement # rest) its =
     (case ms_insert measurement its of
        Inl e \<Rightarrow> Inl e
      | Inr its' \<Rightarrow> ms_init_loop rest its')"

definition ms_init :: "pyobj list option \<Rightarrow> error + items" where
  "ms_init measurements =
     (case measurements of
        None \<Rightarrow> Inl TypeError
      | Some ms \<Rightarrow> ms_init_loop ms [])"

section \<open>Dictionaries and \<open>ChainMap\<close>\<close>

text \<open>
  A metadata dictionary maps string keys to values of any type \<open>'v\<close>, compared with the
  equality of HOL. \<^verbatim>\<open>del d[key]\<close> raises a key error on a missing key and leaves the
  dictionary as it was; the result pairs the error raised, if any, with the dictionary after
  the statement.
\<close>

type_synonym 'v dict = "(string \<times> 'v) list"

definition dict_setitem :: "string \<Rightarrow> 'v \<Rightarrow> 'v dict \<Rightarrow> 'v dict" where
  "dict_setitem key v d = AList.update key v d"

definition dict_delitem :: "string \<Rightarrow> 'v dict \<Rightarrow> error option \<times> 'v dict" where
  "dict_delitem key d =
     (case map_of d key of
        None \<Rightarrow> (Some KeyError, d)
      | Some v \<Rightarrow> (None, AList.delete key d))"

text \<open>
  \<^verbatim>\<open>collections.ChainMap\<close> over a list of dictionaries \<open>maps\<close>: a lookup searches the
  dictionaries from the first to the last and returns the first hit; the length and the
  iteration are those of the union of the key sets (in an order the model does not rely on);
  \<^verbatim>\<open>items()\<close> pairs every key of the iteration with its lookup.
\<close>

fun chain_getitem :: "'v dict list \<Rightarrow> string \<Rightarrow> error + 'v" where
  "chain_getitem [] key = Inl KeyError"
| "chain_getitem (m # maps) key =
     (case map_of m key of
        Some v \<Rightarrow> Inr v
      | None \<Rightarrow> chain_getitem maps key)"

definition chain_contains :: "'v dict list \<Rightarrow> string \<Rightarrow> bool" where
  "chain_contains maps key = list_ex (\<lambda>m. map_of m key \<noteq> None) maps"

definition chain_iter :: "'v dict list \<Rightarrow> string list" where
  "chain_iter maps = remdups (concat (map (map fst) maps))"

definition chain_len :: "'v dict list \<Rightarrow> nat" where
  "chain_len maps = length (chain_iter maps)"

definition chain_items :: "'v dict list \<Rightarrow> (string \<times> 'v) list" where
  "chain_items maps =
     concat (map (\<lambda>key. case chain_getitem maps key of
                           Inr v \<Rightarrow> [(key, v)]
                         | Inl e \<Rightarrow> [])
                 (chain_iter maps))"

section \<open>\<open>Metadata\<close>\<close>

text \<open>
  The state a \<^verbatim>\<open>Metadata\<close> object works on. The measurement set it is bound to and the
  annotation dictionaries of the measurements are shared with the rest of the program, which
  may change them between two calls, so they are part of the state:
    \<^item> \<open>store\<close>: the dictionary \<^verbatim>\<open>notes._data\<close> behind every reference;
    \<^item> \<open>meas_set\<close>: \<^verbatim>\<open>_meas_set._items\<close>, the bound measurement set;
    \<^item> \<open>data\<close>: \<^verbatim>\<open>_data\<close>, the general metadata;
    \<^item> \<open>chain\<close>: the annotation dictionaries appended to \<^verbatim>\<open>_chain.maps\<close>, by reference.
      The first map of \<^verbatim>\<open>_chain\<close> is always \<^verbatim>\<open>_data\<close> itself (both places that build the
      chain start from \<^verbatim>\<open>ChainMap(self._data)\<close>), so it is not stored: \<open>chain_maps\<close> puts it
      in front;
    \<^item> \<open>cached_prefixes\<close>: \<^verbatim>\<open>_cached_prefixes\<close>.
\<close>

record 'v world =
  store :: "ref \<Rightarrow> 'v dict"
  meas_set :: items
  data :: "'v dict"
  chain :: "ref list"
  cached_prefixes :: "string set"

definition chain_maps :: "'v world \<Rightarrow> 'v dict list" where
  "chain_maps w = data w # map (store w) (chain w)"

definition prefixes :: "'v world \<Rightarrow> string set" where
  "prefixes w = set (map name_str (ms_iter (meas_set w)))"

definition refresh_chainmap :: "'v world \<Rightarrow> 'v world" where
  "refresh_chainmap w =
     (if cached_prefixes w \<noteq> prefixes w
      then w\<lparr>cached_prefixes := prefixes w,
             chain := map (\<lambda>(n, measurement). notes_data measurement) (ms_items (meas_set w))\<rparr>
      else w)"

text \<open>
  Modelled from the spec: the annotation store of a measurement (\<^verbatim>\<open>MeasurementNotes\<close>, not
  among the sources) is handed the full key and prefixes it with its own metric name when
  the key lacks that prefix (the "key auto-prefixing" that \<^verbatim>\<open>_refresh_chainmap\<close> bypasses by
  reading \<^verbatim>\<open>notes._data\<close>); the prefixed key is the key of \<^verbatim>\<open>notes._data\<close>.
\<close>

definition notes_prefix :: "measurement \<Rightarrow> string" where
  "notes_prefix m = name_str (metric_name m) @ ''.''"

definition format_key :: "measurement \<Rightarrow> string \<Rightarrow> string" where
  "format_key m key =
     (if take (length (notes_prefix m)) key = notes_prefix m then key
      else notes_prefix m @ key)"

definition notes_setitem ::
  "measurement \<Rightarrow> string \<Rightarrow> 'v \<Rightarrow> (ref \<Rightarrow> 'v dict) \<Rightarrow> (ref \<Rightarrow> 'v dict)" where
  "notes_setitem m key v st =
     st(notes_data m := dict_setitem (format_key m key) v (st (notes_data m)))"

definition notes_delitem ::
  "measurement \<Rightarrow> string \<Rightarrow> (ref \<Rightarrow> 'v dict) \<Rightarrow> error option \<times> (ref \<Rightarrow> 'v dict)" where
  "notes_delitem m key st =
     (case dict_delitem (format_key m key) (st (notes_data m)) of
        (e, d) \<Rightarrow> (e, st(notes_data m := d)))"

text \<open>
  The writers return the error raised, if any, and the state after the call.
\<close>

definition md_setitem :: "string \<Rightarrow> 'v \<Rightarrow> 'v world \<Rightarrow> error option \<times> 'v world" where
  "md_setitem key v w =
     (let general = (None, w\<lparr>data := dict_setitem key v (data w)\<rparr>) in
      case get_prefix key of
        None \<Rightarrow> general
      | Some prefix \<Rightarrow>
          let metric_name = rstrip_dot prefix in
          if ms_contains (KStr metric_name) (meas_set w)
          then (case ms_getitem (KStr metric_name) (meas_set w) of
                  Inl e \<Rightarrow> (Some e, w)
                | Inr m \<Rightarrow> (None, w\<lparr>store := notes_setitem m key v (store w)\<rparr>))
          else general)"

definition md_delitem :: "string \<Rightarrow> 'v world \<Rightarrow> error option \<times> 'v world" where
  "md_delitem key w =
     (let general = (case dict_delitem key (data w) of (e, d) \<Rightarrow> (e, w\<lparr>data := d\<rparr>)) in
      case get_prefix key of
        None \<Rightarrow> general
      | Some prefix \<Rightarrow>
          let metric_name = rstrip_dot prefix in
          if ms_contains (KStr metric_name) (meas_set w)
          then (case ms_getitem (KStr metric_name) (meas_set w) of
                  Inl e \<Rightarrow> (Some e, w)
                | Inr m \<Rightarrow>
                    (case notes_delitem m key (store w) of
                       (e, st) \<Rightarrow> (e, w\<lparr>store := st\<rparr>)))
          else general)"

text \<open>
  The readers refresh the chain first and return their result with the state after the
  refresh.
\<close>

definition md_getitem :: "string \<Rightarrow> 'v world \<Rightarrow> (error + 'v) \<times> 'v world" where
  "md_getitem key w = (let w' = refresh_chainmap w in (chain_getitem (chain_maps w') key, w'))"

definition md_contains :: "string \<Rightarrow> 'v world \<Rightarrow> bool \<times> 'v world" where
  "md_contains key w = (let w' = refresh_chainmap w in (chain_contains (chain_maps w') key, w'))"

definition md_len :: "'v world \<Rightarrow> nat \<times> 'v world" where
  "md_len w = (let w' = refresh_chainmap w in (chain_len (chain_maps w'), w'))"

definition md_iter :: "'v world \<Rightarrow> string list \<times> 'v world" where
  "md_iter w = (let w' = refresh_chainmap w in (chain_iter (chain_maps w'), w'))"

definition md_items :: "'v world \<Rightarrow> (string \<times> 'v) list \<times> 'v world" where
  "md_items w = (let w' = refresh_chainmap w in (chain_items (chain_maps w'), w'))"

text \<open>
  \<^verbatim>\<open>__eq__\<close>: the lengths are compared first; then every item of \<open>other\<close> is looked up
  in \<open>self\<close>. The result is the Boolean; the calls change nothing but the two caches.
\<close>

fun eq_loop :: "(string \<times> 'v) list \<Rightarrow> 'v world \<Rightarrow> bool" where
  "eq_loop [] self = True"
| "eq_loop ((key, v) # rest) self =
     (case md_contains key self of
        (c, s1) \<Rightarrow>
          if \<not> c then False
          else (case md_getitem key s1 of
                  (r, s2) \<Rightarrow> if r \<noteq> Inr v then False else eq_loop rest s2))"

definition md_eq :: "'v world \<Rightarrow> 'v world \<Rightarrow> bool" where
  "md_eq self other =
     (case md_len self of
        (n, s1) \<Rightarrow>
          (case md_len other of
             (m, o1) \<Rightarrow>
               if n \<noteq> m then False
               else eq_loop (fst (md_items o1)) s1))"

text \<open>
  \<^verbatim>\<open>update\<close> sets the items of a dictionary one by one; the constructor starts from an
  empty general store and an empty cache, refreshes the chain and applies the seed
  dictionary, if one is given.
\<close>

fun md_update :: "'v dict \<Rightarrow> 'v world \<Rightarrow> error option \<times> 'v world" where
  "md_update [] w = (None, w)"
| "md_update ((key, v) # rest) w =
     (case md_setitem key v w of
        (Some e, w') \<Rightarrow> (Some e, w')
      | (None, w') \<Rightarrow> md_update rest w')"

definition md_init ::
  "(ref \<Rightarrow> 'v dict) \<Rightarrow> items \<Rightarrow> 'v dict option \<Rightarrow> error option \<times> 'v world" where
  "md_init st measurement_set seed =
     (let w = refresh_chainmap
                \<lparr>store = st, meas_set = measurement_set, data = [], chain = [],
                 cached_prefixes = {}\<rparr>
      in case seed of
           None \<Rightarrow> (None, w)
         | Some d \<Rightarrow> md_update d w)"

section \<open>Properties of the prefix pattern\<close>

lemma greedy_SomeD:
  "greedy cont s k = Some m \<Longrightarrow>
     \<exists>j m'. 0 < j \<and> j \<le> k \<and> cont (drop j s) = Some m' \<and> m = take j s @ m'"
proof (induction k)
  case 0
  then show ?case by simp
next
  case (Suc k)
  show ?case
  proof (cases "cont (drop (Suc k) s)")
    case None
    with Suc.prems have "greedy cont s k = Some m" by simp
    from Suc.IH [OF this] show ?thesis by (metis le_Suc_eq)
  next
    case (Some m')
    with Suc.prems have "m = take (Suc k) s @ m'" by simp
    with Some show ?thesis by (metis le_refl zero_less_Suc)
  qed
qed

lemma rmatch_is_prefix: "rmatch p s = Some m \<Longrightarrow> \<exists>r. s = m @ r"
proof (induction p arbitrary: s m)
  case Nil
  then show ?case by simp
next
  case (Cons a p)
  show ?case
  proof (cases a)
    case NonSpacePlus
    with Cons.prems
    have "greedy (rmatch p) s (length (takeWhile (\<lambda>x. \<not> is_space x) s)) = Some m" by simp
    from greedy_SomeD [OF this] obtain j m' where
      m': "rmatch p (drop j s) = Some m'" and m: "m = take j s @ m'" by blast
    from Cons.IH [OF m'] obtain r where "drop j s = m' @ r" by blast
    then have "s = (take j s @ m') @ r" by (metis append_assoc append_take_drop_id)
    with m show ?thesis by blast
  next
    case (Lit c)
    with Cons.prems obtain x xs m' where s: "s = x # xs" and "x = c"
      and m': "rmatch p xs = Some m'" and m: "m = x # m'"
      by (auto split: list.splits if_splits)
    from Cons.IH [OF m'] s m show ?thesis by auto
  qed
qed

lemma rmatch_count_dots:
  "rmatch p s = Some m \<Longrightarrow>
     length (filter (\<lambda>a. a = Lit (CHR ''.'')) p) \<le> length (filter (\<lambda>c. c = CHR ''.'') m)"
proof (induction p arbitrary: s m)
  case Nil
  then show ?case by simp
next
  case (Cons a p)
  show ?case
  proof (cases a)
    case NonSpacePlus
    with Cons.prems
    have "greedy (rmatch p) s (length (takeWhile (\<lambda>x. \<not> is_space x) s)) = Some m" by simp
    from greedy_SomeD [OF this] obtain j m' where
      m': "rmatch p (drop j s) = Some m'" and m: "m = take j s @ m'" by blast
    from Cons.IH [OF m'] m NonSpacePlus show ?thesis by simp
  next
    case (Lit c)
    with Cons.prems obtain x xs m' where s: "s = x # xs" and x: "x = c"
      and m': "rmatch p xs = Some m'" and m: "m = x # m'"
      by (auto split: list.splits if_splits)
    from Cons.IH [OF m'] s m x Lit show ?thesis by simp
  qed
qed

lemma rmatch_last:
  "rmatch (p @ [Lit c]) s = Some m \<Longrightarrow> m \<noteq> [] \<and> last m = c"
proof (induction p arbitrary: s m)
  case Nil
  then show ?case by (auto split: list.splits if_splits)
next
  case (Cons a p)
  show ?case
  proof (cases a)
    case NonSpacePlus
    with Cons.prems
    have "greedy (rmatch (p @ [Lit c])) s (length (takeWhile (\<lambda>x. \<not> is_space x) s)) = Some m"
      by simp
    from greedy_SomeD [OF this] obtain j m' where
      m': "rmatch (p @ [Lit c]) (drop j s) = Some m'" and m: "m = take j s @ m'" by blast
    from Cons.IH [OF m'] m show ?thesis by simp
  next
    case (Lit d)
    with Cons.prems obtain x xs m' where s: "s = x # xs"
      and m': "rmatch (p @ [Lit c]) xs = Some m'" and m: "m = x # m'"
      by (auto split: list.splits if_splits)
    from Cons.IH [OF m'] m show ?thesis by simp
  qed
qed

lemma get_prefix_is_prefix: "get_prefix key = Some p \<Longrightarrow> \<exists>r. key = p @ r"
  unfolding get_prefix_def by (rule rmatch_is_prefix)

lemma get_prefix_last: "get_prefix key = Some p \<Longrightarrow> p \<noteq> [] \<and> last p = CHR ''.''"
  unfolding get_prefix_def prefix_pattern_def
  using rmatch_last [of "[NonSpacePlus, Lit (CHR ''.''), NonSpacePlus]" "CHR ''.''" key p]
  by simp

lemma get_prefix_two_dots:
  assumes "get_prefix key = Some p"
  shows "2 \<le> length (filter (\<lambda>c. c = CHR ''.'') key)"
proof -
  from assms have "2 \<le> length (filter (\<lambda>c. c = CHR ''.'') p)"
    unfolding get_prefix_def prefix_pattern_def
    using rmatch_count_dots [of "[NonSpacePlus, Lit (CHR ''.''), NonSpacePlus, Lit (CHR ''.'')]" key p]
    by simp
  moreover from get_prefix_is_prefix [OF assms] obtain r where "key = p @ r" by blast
  then have "length (filter (\<lambda>c. c = CHR ''.'') p) \<le> length (filter (\<lambda>c. c = CHR ''.'') key)"
    by simp
  ultimately show ?thesis by simp
qed

text \<open>
  The examples of the docstring of \<open>_get_prefix\<close>.
\<close>

lemma get_prefix_docstring:
  "get_prefix ''note'' = None
   \<and> get_prefix ''validate_drp.PA1.note'' = Some ''validate_drp.PA1.''
   \<and> rstrip_dot ''validate_drp.PA1.'' = ''validate_drp.PA1''"
  by (simp add: get_prefix_def prefix_pattern_def is_space_def rstrip_dot_def)

text \<open>
  C1. The specification says that for a key of three or more dot-delimited components
  such as \<open>a.b.c.d\<close> the prefix is the first two components and their separator,
  \<open>a.b.\<close>. Both repetitions of the pattern are greedy and a dot is not white space, so
  the code returns the longest prefix of that shape instead: on \<open>a.b.c.d\<close> it is
  \<open>a.b.c.\<close>, the first three components. (A key with fewer than two dots has no
  prefix: \<open>get_prefix_two_dots\<close>.)
\<close>

theorem get_prefix_four_components: "get_prefix ''a.b.c.d'' = Some ''a.b.c.''"
  by (simp add: get_prefix_def prefix_pattern_def is_space_def)

section \<open>Properties of the measurement set\<close>

lemma ms_insert_Meas: "ms_insert (Meas m) its = Inr (AList.update (metric_name m) m its)"
  by (simp add: ms_insert_def ms_setitem_def metric_name_def)

lemma update_not_Nil: "AList.update k v al \<noteq> []"
  by (cases al) auto

text \<open>
  C8 (as amended). \<open>MeasurementSet.__setitem__\<close> checks the key first: a key that is not a
  metric name raises a key error whatever the value is. For a metric-name key, a value
  that is not a Measurement raises a type error, and a Measurement whose declared metric
  name differs from the key raises a key error. A call that succeeds has stored the
  measurement under its declared metric name, and \<open>insert\<close> of a Measurement succeeds.
\<close>

theorem ms_setitem_errors:
  "(\<not> is_metric (as_name k) \<longrightarrow> ms_setitem k v its = Inl KeyError)
   \<and> (is_metric (as_name k) \<longrightarrow> ms_setitem k (Other a) its = Inl TypeError)
   \<and> (as_name k \<noteq> metric_name m \<longrightarrow> ms_setitem k (Meas m) its = Inl KeyError)
   \<and> (ms_setitem k v its = Inr its' \<longrightarrow>
        (\<exists>m'. v = Meas m' \<and> as_name k = metric_name m' \<and>
              its' = AList.update (metric_name m') m' its \<and>
              ms_getitem (KName (metric_name m')) its' = Inr m'))
   \<and> ms_insert (Meas m) its = Inr (AList.update (metric_name m) m its)
   \<and> ms_getitem (KName (metric_name m)) (AList.update (metric_name m) m its) = Inr m"
  by (auto simp add: ms_setitem_def ms_insert_def ms_getitem_def metric_name_def Let_def
        update_conv' split: pyobj.splits if_splits)

theorem ms_setitem_errors_witness:
  "ms_setitem (KName (PlainName ''validate_drp'')) (Other None) [] = Inl KeyError
   \<and> ms_setitem (KStr ''validate_drp.PA1'') (Other None) [] = Inl TypeError
   \<and> ms_setitem (KStr ''PA2'') (Meas \<lparr>metric = ''PA1'', notes_data = 0\<rparr>) [] = Inl KeyError
   \<and> ms_getitem (KName (MetricName ''PA1''))
         [(MetricName ''PA1'', \<lparr>metric = ''PA1'', notes_data = 0\<rparr>)]
       = Inr \<lparr>metric = ''PA1'', notes_data = 0\<rparr>"
proof -
  let ?m = "\<lparr>metric = ''PA1'', notes_data = 0\<rparr>"
  have ok: "ms_setitem (KStr ''PA1'') (Meas ?m) [] = Inr [(MetricName ''PA1'', ?m)]"
    by (simp add: ms_setitem_def metric_name_def)
  show ?thesis
    using ms_setitem_errors [where k = "KName (PlainName ''validate_drp'')" and v = "Other None"
        and its = "[]" and a = None and m = ?m and its' = "[]"]
      ms_setitem_errors [where k = "KStr ''validate_drp.PA1''" and v = "Other None"
        and its = "[]" and a = None and m = ?m and its' = "[]"]
      ms_setitem_errors [where k = "KStr ''PA2''" and v = "Meas ?m"
        and its = "[]" and a = None and m = ?m and its' = "[]"]
      ms_setitem_errors [where k = "KStr ''PA1''" and v = "Meas ?m"
        and its = "[]" and a = None and m = ?m and its' = "[(MetricName ''PA1'', ?m)]"] ok
    by (simp add: metric_name_def)
qed

text \<open>
  C8 as stated fails where it promises a type error for every value that is not a
  Measurement: under a key that is not a metric name such a value raises a key error.
\<close>

theorem ms_setitem_type_error_counterexample:
  "ms_setitem (KName (PlainName ''validate_drp'')) (Other None) [] = Inl KeyError
   \<and> ms_setitem (KName (PlainName ''validate_drp'')) (Other None) [] \<noteq> Inl TypeError"
  by (simp add: ms_setitem_def)

lemma ms_insert_not_Nil: "ms_insert x its \<noteq> Inr []"
  by (auto simp add: ms_insert_def ms_setitem_def update_not_Nil Let_def
        split: option.splits pyobj.splits if_splits)

lemma ms_init_loop_not_Nil: "its \<noteq> [] \<Longrightarrow> ms_init_loop xs its \<noteq> Inr []"
proof (induction xs arbitrary: its)
  case Nil
  then show ?case by simp
next
  case (Cons x xs)
  show ?case
  proof (cases "ms_insert x its")
    case (Inl e)
    then show ?thesis by simp
  next
    case (Inr its')
    with ms_insert_not_Nil [of x its] have "its' \<noteq> []" by auto
    from Cons.IH [OF this] Inr show ?thesis by simp
  qed
qed

lemma ms_init_empty_iff: "ms_init arg = Inr [] \<longleftrightarrow> arg = Some []"
proof (cases arg)
  case None
  then show ?thesis by (simp add: ms_init_def)
next
  case (Some xs)
  show ?thesis
  proof (cases xs)
    case Nil
    with Some show ?thesis by (simp add: ms_init_def)
  next
    case (Cons x rest)
    have "ms_init_loop (x # rest) [] \<noteq> Inr []"
    proof (cases "ms_insert x []")
      case (Inl e)
      then show ?thesis by simp
    next
      case (Inr its')
      with ms_insert_not_Nil [of x "[]"] have "its' \<noteq> []" by auto
      from ms_init_loop_not_Nil [OF this] Inr show ?thesis by simp
    qed
    with Some Cons show ?thesis by (simp add: ms_init_def)
  qed
qed

lemma ms_init_loop_Meas:
  "ms_init_loop (map Meas ms) its = Inr (fold (\<lambda>m. AList.update (metric_name m) m) ms its)"
  by (induction ms arbitrary: its) (simp_all add: ms_insert_Meas)

lemma map_of_fold_update:
  "map_of (fold (\<lambda>m. AList.update (metric_name m) m) ms its)
     = map_of its ++ map_of (rev (map (\<lambda>m. (metric_name m, m)) ms))"
proof (induction ms arbitrary: its)
  case Nil
  then show ?case by simp
next
  case (Cons m ms)
  then show ?case
    by (simp add: update_conv' fun_eq_iff map_add_def split: option.splits)
qed

lemma distinct_fold_update:
  "distinct (map fst its) \<Longrightarrow>
     distinct (map fst (fold (\<lambda>m. AList.update (metric_name m) m) ms its))"
  by (induction ms arbitrary: its) (simp_all add: distinct_update)

lemma distinct_metric_names:
  "distinct (map metric ms) \<Longrightarrow> distinct (map metric_name ms)"
  by (auto simp add: distinct_map inj_on_def metric_name_def)

text \<open>
  C10. Constructing a measurement set with no argument (\<open>None\<close>) raises a type error.
  For every non-empty list of measurements the construction succeeds, the set is not
  empty, every measurement's declared metric name is a key of the set, every stored
  measurement comes from the list and sits under its own declared metric name, and when
  the declared names are pairwise distinct every measurement of the list is the one stored
  under its name. The construction yields the empty set exactly for the explicit empty list.
\<close>

theorem ms_init_spec:
  "ms_init None = Inl TypeError
   \<and> (ms \<noteq> [] \<longrightarrow>
        (\<exists>its. ms_init (Some (map Meas ms)) = Inr its \<and> its \<noteq> []
           \<and> (\<forall>m \<in> set ms. ms_contains (KName (metric_name m)) its)
           \<and> (\<forall>(n, m) \<in> set its. m \<in> set ms \<and> n = metric_name m)
           \<and> (distinct (map metric ms) \<longrightarrow>
                (\<forall>m \<in> set ms. ms_getitem (KName (metric_name m)) its = Inr m))))
   \<and> (ms_init arg = Inr [] \<longleftrightarrow> arg = Some [])"
proof (intro conjI impI)
  show "ms_init None = Inl TypeError" by (simp add: ms_init_def)
next
  show "ms_init arg = Inr [] \<longleftrightarrow> arg = Some []" by (rule ms_init_empty_iff)
next
  assume ne: "ms \<noteq> []"
  define its where "its = fold (\<lambda>m. AList.update (metric_name m) m) ms []"
  let ?al = "rev (map (\<lambda>m. (metric_name m, m)) ms)"
  have init: "ms_init (Some (map Meas ms)) = Inr its"
    by (simp add: ms_init_def ms_init_loop_Meas its_def)
  have M: "map_of its = map_of ?al"
    unfolding its_def by (simp add: map_of_fold_update)
  have dist: "distinct (map fst its)"
    unfolding its_def by (rule distinct_fold_update) simp
  have b: "\<forall>m \<in> set ms. ms_contains (KName (metric_name m)) its"
  proof
    fix m assume "m \<in> set ms"
    then have "metric_name m \<in> fst ` set ?al" by force
    then have "map_of ?al (metric_name m) \<noteq> None" by (simp add: map_of_eq_None_iff)
    then show "ms_contains (KName (metric_name m)) its" by (simp add: ms_contains_def M)
  qed
  have c: "\<forall>(n, m) \<in> set its. m \<in> set ms \<and> n = metric_name m"
  proof (clarify)
    fix n m assume "(n, m) \<in> set its"
    with dist have "map_of its n = Some m" by (rule map_of_is_SomeI)
    then have "map_of ?al n = Some m" by (simp add: M)
    then have "(n, m) \<in> set ?al" by (rule map_of_SomeD)
    then show "m \<in> set ms \<and> n = metric_name m" by auto
  qed
  have d: "distinct (map metric ms) \<longrightarrow>
             (\<forall>m \<in> set ms. ms_getitem (KName (metric_name m)) its = Inr m)"
  proof (intro impI ballI)
    fix m assume dm: "distinct (map metric ms)" and m: "m \<in> set ms"
    have "map fst ?al = rev (map metric_name ms)" by (simp add: rev_map comp_def)
    with distinct_metric_names [OF dm] have "distinct (map fst ?al)" by simp
    moreover from m have "(metric_name m, m) \<in> set ?al" by auto
    ultimately have "map_of ?al (metric_name m) = Some m" by (rule map_of_is_SomeI)
    then show "ms_getitem (KName (metric_name m)) its = Inr m"
      by (simp add: ms_getitem_def M)
  qed
  from ne obtain m where "m \<in> set ms" by (cases ms) auto
  with b have "ms_contains (KName (metric_name m)) its" by blast
  then have "its \<noteq> []" by (auto simp add: ms_contains_def)
  with init b c d
  show "\<exists>its. ms_init (Some (map Meas ms)) = Inr its \<and> its \<noteq> []
           \<and> (\<forall>m \<in> set ms. ms_contains (KName (metric_name m)) its)
           \<and> (\<forall>(n, m) \<in> set its. m \<in> set ms \<and> n = metric_name m)
           \<and> (distinct (map metric ms) \<longrightarrow>
                (\<forall>m \<in> set ms. ms_getitem (KName (metric_name m)) its = Inr m))"
    by blast
qed

theorem ms_init_spec_witness:
  "ms_init (Some [Meas \<lparr>metric = ''validate_drp.PA1'', notes_data = 0\<rparr>,
                  Meas \<lparr>metric = ''validate_drp.PA2'', notes_data = 1\<rparr>])
     = Inr [(MetricName ''validate_drp.PA1'', \<lparr>metric = ''validate_drp.PA1'', notes_data = 0\<rparr>),
            (MetricName ''validate_drp.PA2'', \<lparr>metric = ''validate_drp.PA2'', notes_data = 1\<rparr>)]
   \<and> ms_init None = Inl TypeError
   \<and> ms_init (Some []) = Inr []"
proof -
  let ?m1 = "\<lparr>metric = ''validate_drp.PA1'', notes_data = 0\<rparr>"
  let ?m2 = "\<lparr>metric = ''validate_drp.PA2'', notes_data = 1\<rparr>"
  have ne: "[?m1, ?m2] \<noteq> []" by simp
  have dm: "distinct (map metric [?m1, ?m2])" by simp
  from ms_init_spec [of "[?m1, ?m2]" "Some []"] ne dm
  obtain its where init: "ms_init (Some (map Meas [?m1, ?m2])) = Inr its"
    and none: "ms_init None = Inl TypeError"
    and empty: "ms_init (Some []) = Inr []"
    by auto
  have "ms_init (Some (map Meas [?m1, ?m2]))
          = Inr [(MetricName ''validate_drp.PA1'', ?m1), (MetricName ''validate_drp.PA2'', ?m2)]"
    by (simp add: ms_init_def ms_insert_def ms_setitem_def metric_name_def)
  with none empty show ?thesis by simp
qed

section \<open>Properties of the metadata container\<close>

lemmas ev = md_init_def md_setitem_def md_getitem_def md_len_def md_contains_def
  refresh_chainmap_def prefixes_def ms_iter_def ms_items_def ms_contains_def ms_getitem_def
  ms_insert_def ms_setitem_def metric_name_def
  chain_maps_def chain_len_def chain_iter_def chain_contains_def
  notes_setitem_def format_key_def notes_prefix_def dict_setitem_def
  get_prefix_def prefix_pattern_def is_space_def rstrip_dot_def Let_def

lemma refresh_data [simp]: "data (refresh_chainmap w) = data w"
  by (simp add: refresh_chainmap_def)

lemma refresh_store [simp]: "store (refresh_chainmap w) = store w"
  by (simp add: refresh_chainmap_def)

lemma refresh_meas_set [simp]: "meas_set (refresh_chainmap w) = meas_set w"
  by (simp add: refresh_chainmap_def)

lemma chain_maps_refresh:
  "chain_maps (refresh_chainmap w) = data w # map (store w) (chain (refresh_chainmap w))"
  by (simp add: chain_maps_def)

lemma chain_getitem_first:
  "\<forall>m \<in> set xs. map_of m key = None \<Longrightarrow> map_of d key = Some v \<Longrightarrow>
     chain_getitem (xs @ d # ys) key = Inr v"
  by (induction xs) simp_all

text \<open>
  C4. For every key that the prefix pattern does not match and every value, whatever the
  bound measurement set holds, \<open>set\<close> stores the value in the general store (and touches no
  annotation store) and the following \<open>get\<close> returns it.
\<close>

theorem md_set_get_general:
  assumes "get_prefix key = None"
  shows "fst (md_setitem key v w) = None
         \<and> data (snd (md_setitem key v w)) = dict_setitem key v (data w)
         \<and> map_of (data (snd (md_setitem key v w))) key = Some v
         \<and> store (snd (md_setitem key v w)) = store w
         \<and> fst (md_getitem key (snd (md_setitem key v w))) = Inr v"
  using assms
  by (simp add: md_setitem_def md_getitem_def chain_maps_refresh dict_setitem_def
        update_conv' Let_def)

theorem md_set_get_general_witness:
  "get_prefix ''note'' = None
   \<and> fst (md_getitem ''note''
        (snd (md_setitem ''note'' (7::nat)
           \<lparr>store = (\<lambda>r. []),
            meas_set = [(MetricName ''validate_drp.PA1'',
                         \<lparr>metric = ''validate_drp.PA1'', notes_data = 0\<rparr>)],
            data = [], chain = [0], cached_prefixes = {''validate_drp.PA1''}\<rparr>))) = Inr 7"
proof -
  have h: "get_prefix ''note'' = None"
    by (simp add: get_prefix_def prefix_pattern_def is_space_def)
  from md_set_get_general [OF h, where v = "7::nat"] h show ?thesis by simp
qed

text \<open>
  C2 (as amended). For a key present in more than one layer of the flattened view, \<open>get\<close>
  returns the value of the earliest layer holding it: the general store comes first and
  shadows the measurement layers, and a measurement layer appended earlier shadows one
  appended later.
\<close>

theorem md_getitem_first_layer:
  assumes "chain_maps (refresh_chainmap w) = xs @ d # ys"
    and "\<forall>m \<in> set xs. map_of m key = None"
    and "map_of d key = Some v"
  shows "fst (md_getitem key w) = Inr v"
  using assms by (simp add: md_getitem_def chain_getitem_first)

theorem md_getitem_first_layer_witness:
  "fst (md_getitem ''validate_drp.PA1.note''
     \<lparr>store = (\<lambda>r. [])(0 := [(''validate_drp.PA1.note'', 2::nat)],
                         1 := [(''validate_drp.PA1.note'', 3)]),
      meas_set = [(MetricName ''validate_drp.PA1'',
                   \<lparr>metric = ''validate_drp.PA1'', notes_data = 0\<rparr>),
                  (MetricName ''validate_drp.PA1.note'',
                   \<lparr>metric = ''validate_drp.PA1.note'', notes_data = 1\<rparr>)],
      data = [(''note'', 1)], chain = [], cached_prefixes = {}\<rparr>) = Inr 2"
proof -
  let ?w = "\<lparr>store = (\<lambda>r. [])(0 := [(''validate_drp.PA1.note'', 2::nat)],
                         1 := [(''validate_drp.PA1.note'', 3)]),
      meas_set = [(MetricName ''validate_drp.PA1'',
                   \<lparr>metric = ''validate_drp.PA1'', notes_data = 0\<rparr>),
                  (MetricName ''validate_drp.PA1.note'',
                   \<lparr>metric = ''validate_drp.PA1.note'', notes_data = 1\<rparr>)],
      data = [(''note'', 1)], chain = [], cached_prefixes = {}\<rparr>"
  have a: "chain_maps (refresh_chainmap ?w)
             = [[(''note'', 1)]] @ [(''validate_drp.PA1.note'', 2)] # [[(''validate_drp.PA1.note'', 3)]]"
    by (simp add: chain_maps_def refresh_chainmap_def prefixes_def ms_iter_def ms_items_def)
  have b: "\<forall>m \<in> set [[(''note'', 1::nat)]]. map_of m ''validate_drp.PA1.note'' = None" by simp
  have c: "map_of [(''validate_drp.PA1.note'', 2::nat)] ''validate_drp.PA1.note'' = Some 2" by simp
  from md_getitem_first_layer [OF a b c] show ?thesis .
qed

text \<open>
  C2 as stated fails: a key is set while its metric is not in the bound set (general store,
  value 1), the measurement is added, and the key is set again (annotation store, value 2).
  The key is now in both layers and \<open>get\<close> returns the value of the general store, the
  layer added first.
\<close>

theorem md_getitem_later_layer_counterexample:
  "map_of (data
     (snd (md_setitem ''validate_drp.PA1.note'' (2::nat)
        ((snd (md_setitem ''validate_drp.PA1.note'' 1 (snd (md_init (\<lambda>r. []) [] None))))
           \<lparr>meas_set := [(MetricName ''validate_drp.PA1'',
                           \<lparr>metric = ''validate_drp.PA1'', notes_data = 0\<rparr>)]\<rparr>))))
     ''validate_drp.PA1.note'' = Some 1
   \<and> map_of (store
     (snd (md_setitem ''validate_drp.PA1.note'' (2::nat)
        ((snd (md_setitem ''validate_drp.PA1.note'' 1 (snd (md_init (\<lambda>r. []) [] None))))
           \<lparr>meas_set := [(MetricName ''validate_drp.PA1'',
                           \<lparr>metric = ''validate_drp.PA1'', notes_data = 0\<rparr>)]\<rparr>))) 0)
     ''validate_drp.PA1.note'' = Some 2
   \<and> fst (md_getitem ''validate_drp.PA1.note''
     (snd (md_setitem ''validate_drp.PA1.note'' (2::nat)
        ((snd (md_setitem ''validate_drp.PA1.note'' 1 (snd (md_init (\<lambda>r. []) [] None))))
           \<lparr>meas_set := [(MetricName ''validate_drp.PA1'',
                           \<lparr>metric = ''validate_drp.PA1'', notes_data = 0\<rparr>)]\<rparr>)))) = Inr 1"
  by (simp add: ev)


lemma md_delitem_general:
  assumes "\<forall>p. get_prefix key = Some p \<longrightarrow> \<not> ms_contains (KStr (rstrip_dot p)) (meas_set w)"
  shows "md_delitem key w =
           (if map_of (data w) key = None then (Some KeyError, w)
            else (None, w\<lparr>data := AList.delete key (data w)\<rparr>))"
  using assms
  by (auto simp add: md_delitem_def dict_delitem_def Let_def split: option.splits)

lemma md_delitem_routed:
  assumes "get_prefix key = Some p"
    and "ms_getitem (KStr (rstrip_dot p)) (meas_set w) = Inr m"
  shows "md_delitem key w =
           (if map_of (store w (notes_data m)) (format_key m key) = None then (Some KeyError, w)
            else (None, w\<lparr>store := (store w)(notes_data m :=
                              AList.delete (format_key m key) (store w (notes_data m)))\<rparr>))"
proof -
  from assms(2) have "ms_contains (KStr (rstrip_dot p)) (meas_set w)"
    by (auto simp add: ms_getitem_def ms_contains_def split: option.splits)
  with assms show ?thesis
    by (auto simp add: md_delitem_def notes_delitem_def dict_delitem_def Let_def
          split: option.splits)
qed

lemma md_delitem_failed: "fst (md_delitem key w) \<noteq> None \<Longrightarrow> snd (md_delitem key w) = w"
  by (auto simp add: md_delitem_def notes_delitem_def dict_delitem_def Let_def
        split: option.splits sum.splits if_splits)

text \<open>
  C9 (as amended). \<open>delete\<close> follows the routing decision of \<open>set\<close>. A key whose prefix
  names no measurement of the bound set (or that has no prefix) is deleted from the general
  store, and a key error is raised exactly when the general store lacks it. A key whose
  prefix names a measurement of the set is deleted from that measurement's annotation
  store, and a key error is raised exactly when that store lacks it. A delete that raises
  leaves the whole state as it was.
\<close>

theorem md_delitem_spec:
  "(fst (md_delitem key w) \<noteq> None \<longrightarrow> snd (md_delitem key w) = w)
   \<and> ((\<forall>p. get_prefix key = Some p \<longrightarrow> \<not> ms_contains (KStr (rstrip_dot p)) (meas_set w)) \<longrightarrow>
        md_delitem key w =
          (if map_of (data w) key = None then (Some KeyError, w)
           else (None, w\<lparr>data := AList.delete key (data w)\<rparr>)))
   \<and> (\<forall>p m. get_prefix key = Some p \<and> ms_getitem (KStr (rstrip_dot p)) (meas_set w) = Inr m \<longrightarrow>
        md_delitem key w =
          (if map_of (store w (notes_data m)) (format_key m key) = None then (Some KeyError, w)
           else (None, w\<lparr>store := (store w)(notes_data m :=
                             AList.delete (format_key m key) (store w (notes_data m)))\<rparr>)))"
  using md_delitem_failed [of key w] md_delitem_general [of key w] md_delitem_routed [of key _ w]
  by blast

theorem md_delitem_spec_witness:
  "md_delitem ''missing_key''
      \<lparr>store = (\<lambda>r. []), meas_set = [], data = [(''note'', 1::nat)], chain = [],
       cached_prefixes = {}\<rparr>
     = (Some KeyError,
        \<lparr>store = (\<lambda>r. []), meas_set = [], data = [(''note'', 1::nat)], chain = [],
         cached_prefixes = {}\<rparr>)
   \<and> md_delitem ''validate_drp.PA1.note''
      \<lparr>store = (\<lambda>r. [(''validate_drp.PA1.other'', 1::nat)]),
       meas_set = [(MetricName ''validate_drp.PA1'',
                    \<lparr>metric = ''validate_drp.PA1'', notes_data = 0\<rparr>)],
       data = [], chain = [0], cached_prefixes = {''validate_drp.PA1''}\<rparr>
     = (Some KeyError,
        \<lparr>store = (\<lambda>r. [(''validate_drp.PA1.other'', 1::nat)]),
         meas_set = [(MetricName ''validate_drp.PA1'',
                      \<lparr>metric = ''validate_drp.PA1'', notes_data = 0\<rparr>)],
         data = [], chain = [0], cached_prefixes = {''validate_drp.PA1''}\<rparr>)"
proof -
  let ?w1 = "\<lparr>store = (\<lambda>r. []), meas_set = [], data = [(''note'', 1::nat)], chain = [],
       cached_prefixes = {}\<rparr>"
  let ?m = "\<lparr>metric = ''validate_drp.PA1'', notes_data = 0\<rparr>"
  let ?w2 = "\<lparr>store = (\<lambda>r. [(''validate_drp.PA1.other'', 1::nat)]),
       meas_set = [(MetricName ''validate_drp.PA1'', ?m)],
       data = [], chain = [0], cached_prefixes = {''validate_drp.PA1''}\<rparr>"
  have g: "\<forall>p. get_prefix ''missing_key'' = Some p \<longrightarrow>
             \<not> ms_contains (KStr (rstrip_dot p)) (meas_set ?w1)"
    by (simp add: ms_contains_def)
  have r: "get_prefix ''validate_drp.PA1.note'' = Some ''validate_drp.PA1.''
           \<and> ms_getitem (KStr (rstrip_dot ''validate_drp.PA1.'')) (meas_set ?w2) = Inr ?m"
    by (simp add: get_prefix_def prefix_pattern_def is_space_def rstrip_dot_def ms_getitem_def)
  from md_delitem_spec [of "''missing_key''" ?w1] g
  have "md_delitem ''missing_key'' ?w1 = (Some KeyError, ?w1)" by simp
  moreover from md_delitem_spec [of "''validate_drp.PA1.note''" ?w2] r
  have "md_delitem ''validate_drp.PA1.note'' ?w2 = (Some KeyError, ?w2)"
    by (simp add: format_key_def notes_prefix_def metric_name_def)
  ultimately show ?thesis by simp
qed


text \<open>
  C9 as stated fails: a key whose prefix resolves to a metric name that is not in the
  bound set, but which is present in the general store, is deleted without an error.
\<close>

theorem md_delitem_absent_metric_counterexample:
  "get_prefix ''validate_drp.PA1.note'' = Some ''validate_drp.PA1.''
   \<and> \<not> ms_contains (KStr (rstrip_dot ''validate_drp.PA1.'')) []
   \<and> fst (md_delitem ''validate_drp.PA1.note''
        (snd (md_setitem ''validate_drp.PA1.note'' (1::nat)
           (snd (md_init (\<lambda>r. []) [] None))))) = None"
  by (simp add: ev md_delitem_def dict_delitem_def)

section \<open>The flattened view: length and equality\<close>

lemma set_chain_iter: "set (chain_iter maps) = (\<Union>d \<in> set maps. fst ` set d)"
  by (auto simp add: chain_iter_def)

lemma chain_getitem_Inl:
  "chain_getitem maps key = Inl e \<longleftrightarrow> e = KeyError \<and> key \<notin> set (chain_iter maps)"
proof (induction maps)
  case Nil
  then show ?case by (auto simp add: chain_iter_def)
next
  case (Cons d maps)
  show ?case
  proof (cases "map_of d key")
    case None
    then have "key \<notin> fst ` set d" by (simp add: map_of_eq_None_iff)
    with None Cons.IH show ?thesis by (simp add: set_chain_iter)
  next
    case (Some v)
    then have "key \<in> fst ` set d" by (metis map_of_eq_None_iff option.distinct(1))
    with Some show ?thesis by (simp add: set_chain_iter)
  qed
qed

lemma chain_getitem_Inr_ex:
  "(\<exists>v. chain_getitem maps key = Inr v) \<longleftrightarrow> key \<in> set (chain_iter maps)"
proof (cases "chain_getitem maps key")
  case (Inl e)
  then show ?thesis using chain_getitem_Inl [of maps key e] by simp
next
  case (Inr v)
  then show ?thesis using chain_getitem_Inl [of maps key KeyError] by simp
qed

lemma chain_contains_iff: "chain_contains maps key \<longleftrightarrow> key \<in> set (chain_iter maps)"
  by (auto simp add: chain_contains_def list_ex_iff set_chain_iter map_of_eq_None_iff)

lemma chain_len_card: "chain_len maps = card (\<Union>d \<in> set maps. fst ` set d)"
  by (simp add: chain_len_def chain_iter_def length_remdups_card_conv)

lemma item_of_key:
  "(k, v) \<in> set (case r of Inr x \<Rightarrow> [(key, x)] | Inl e \<Rightarrow> []) \<longleftrightarrow> key = k \<and> r = Inr v"
  by (cases r) auto

lemma in_chain_items:
  "(k, v) \<in> set (chain_items maps) \<longleftrightarrow> chain_getitem maps k = Inr v"
proof -
  have "(k, v) \<in> set (chain_items maps) \<longleftrightarrow>
          (\<exists>key \<in> set (chain_iter maps). key = k \<and> chain_getitem maps key = Inr v)"
    by (auto simp add: chain_items_def item_of_key)
  also have "\<dots> \<longleftrightarrow> k \<in> set (chain_iter maps) \<and> chain_getitem maps k = Inr v"
    by blast
  also have "\<dots> \<longleftrightarrow> chain_getitem maps k = Inr v"
    using chain_getitem_Inr_ex [of maps k] by blast
  finally show ?thesis .
qed

lemma refresh_idem: "refresh_chainmap (refresh_chainmap w) = refresh_chainmap w"
  by (cases "cached_prefixes w = prefixes w") (simp_all add: refresh_chainmap_def prefixes_def)

lemma eq_loop_iff:
  assumes "refresh_chainmap s = s"
  shows "eq_loop its s \<longleftrightarrow> (\<forall>(k, v) \<in> set its. chain_getitem (chain_maps s) k = Inr v)"
proof (induction its)
  case Nil
  then show ?case by simp
next
  case (Cons kv its)
  obtain k v where kv: "kv = (k, v)" by (cases kv)
  have c: "md_contains k s = (chain_contains (chain_maps s) k, s)"
    by (simp add: md_contains_def assms)
  have g: "md_getitem k s = (chain_getitem (chain_maps s) k, s)"
    by (simp add: md_getitem_def assms)
  have "chain_getitem (chain_maps s) k = Inr v \<Longrightarrow> chain_contains (chain_maps s) k"
    using chain_getitem_Inr_ex [of "chain_maps s" k] by (simp add: chain_contains_iff)
  with Cons.IH show ?case by (auto simp add: kv c g)
qed

lemma md_eq_chain:
  "md_eq s t \<longleftrightarrow>
     chain_len (chain_maps (refresh_chainmap s)) = chain_len (chain_maps (refresh_chainmap t))
     \<and> (\<forall>k v. chain_getitem (chain_maps (refresh_chainmap t)) k = Inr v \<longrightarrow>
               chain_getitem (chain_maps (refresh_chainmap s)) k = Inr v)"
proof -
  have "md_eq s t \<longleftrightarrow>
          (chain_len (chain_maps (refresh_chainmap s)) = chain_len (chain_maps (refresh_chainmap t))
           \<and> eq_loop (chain_items (chain_maps (refresh_chainmap t))) (refresh_chainmap s))"
    by (simp add: md_eq_def md_len_def md_items_def refresh_idem Let_def)
  also have "eq_loop (chain_items (chain_maps (refresh_chainmap t))) (refresh_chainmap s) \<longleftrightarrow>
          (\<forall>(k, v) \<in> set (chain_items (chain_maps (refresh_chainmap t))).
              chain_getitem (chain_maps (refresh_chainmap s)) k = Inr v)"
    by (rule eq_loop_iff) (rule refresh_idem)
  also have "\<dots> \<longleftrightarrow>
          (\<forall>k v. chain_getitem (chain_maps (refresh_chainmap t)) k = Inr v \<longrightarrow>
                 chain_getitem (chain_maps (refresh_chainmap s)) k = Inr v)"
    by (auto simp add: in_chain_items)
  finally show ?thesis .
qed

lemma distinct_chain_iter: "distinct (chain_iter maps)"
  by (simp add: chain_iter_def)

text \<open>
  C7. Two metadata containers compare equal if and only if they expose the same set of
  flattened keys and every key maps to the same value in both, however the entries are
  distributed between the general store and the annotation layers. (Values are compared
  with the equality of HOL.)
\<close>

theorem md_eq_iff:
  "md_eq self other \<longleftrightarrow>
     set (fst (md_iter self)) = set (fst (md_iter other))
     \<and> (\<forall>key \<in> set (fst (md_iter self)).
           fst (md_getitem key self) = fst (md_getitem key other))"
proof -
  define A where "A = chain_maps (refresh_chainmap self)"
  define B where "B = chain_maps (refresh_chainmap other)"
  have eq: "md_eq self other \<longleftrightarrow>
      chain_len A = chain_len B
      \<and> (\<forall>k v. chain_getitem B k = Inr v \<longrightarrow> chain_getitem A k = Inr v)"
    unfolding A_def B_def by (rule md_eq_chain)
  have len: "chain_len A = card (set (chain_iter A))" "chain_len B = card (set (chain_iter B))"
    by (simp_all add: chain_len_def distinct_card distinct_chain_iter)
  have rhs: "(set (fst (md_iter self)) = set (fst (md_iter other))
     \<and> (\<forall>key \<in> set (fst (md_iter self)).
           fst (md_getitem key self) = fst (md_getitem key other)))
     \<longleftrightarrow> (set (chain_iter A) = set (chain_iter B)
          \<and> (\<forall>key \<in> set (chain_iter A). chain_getitem A key = chain_getitem B key))"
    by (simp add: md_iter_def md_getitem_def A_def B_def Let_def)
  have "(chain_len A = chain_len B
      \<and> (\<forall>k v. chain_getitem B k = Inr v \<longrightarrow> chain_getitem A k = Inr v))
     \<longleftrightarrow> (set (chain_iter A) = set (chain_iter B)
          \<and> (\<forall>key \<in> set (chain_iter A). chain_getitem A key = chain_getitem B key))"
  proof
    assume h: "chain_len A = chain_len B
      \<and> (\<forall>k v. chain_getitem B k = Inr v \<longrightarrow> chain_getitem A k = Inr v)"
    have sub: "set (chain_iter B) \<subseteq> set (chain_iter A)"
    proof
      fix k assume "k \<in> set (chain_iter B)"
      then obtain v where "chain_getitem B k = Inr v"
        using chain_getitem_Inr_ex [of B k] by blast
      with h have "chain_getitem A k = Inr v" by blast
      then show "k \<in> set (chain_iter A)" using chain_getitem_Inr_ex [of A k] by blast
    qed
    from h len have "card (set (chain_iter B)) = card (set (chain_iter A))" by simp
    with sub have keys: "set (chain_iter B) = set (chain_iter A)"
      by (simp add: card_subset_eq)
    have "chain_getitem A k = chain_getitem B k" if "k \<in> set (chain_iter A)" for k
    proof -
      from that keys obtain v where "chain_getitem B k = Inr v"
        using chain_getitem_Inr_ex [of B k] by blast
      with h show ?thesis by simp
    qed
    with keys show "set (chain_iter A) = set (chain_iter B)
          \<and> (\<forall>key \<in> set (chain_iter A). chain_getitem A key = chain_getitem B key)"
      by simp
  next
    assume h: "set (chain_iter A) = set (chain_iter B)
          \<and> (\<forall>key \<in> set (chain_iter A). chain_getitem A key = chain_getitem B key)"
    have "chain_getitem A k = Inr v" if "chain_getitem B k = Inr v" for k v
    proof -
      from that have "k \<in> set (chain_iter B)" using chain_getitem_Inr_ex [of B k] by blast
      with h that show ?thesis by simp
    qed
    with h len show "chain_len A = chain_len B
      \<and> (\<forall>k v. chain_getitem B k = Inr v \<longrightarrow> chain_getitem A k = Inr v)"
      by simp
  qed
  with eq rhs show ?thesis by simp
qed

theorem md_eq_iff_witness:
  "md_eq \<lparr>store = (\<lambda>r. []), meas_set = [],
          data = [(''validate_drp.PA1.note'', 5::nat), (''date'', 6)],
          chain = [], cached_prefixes = {}\<rparr>
         \<lparr>store = (\<lambda>r. [])(0 := [(''validate_drp.PA1.note'', 5)]),
          meas_set = [(MetricName ''validate_drp.PA1'',
                       \<lparr>metric = ''validate_drp.PA1'', notes_data = 0\<rparr>)],
          data = [(''date'', 6)], chain = [], cached_prefixes = {}\<rparr>"
proof -
  let ?s = "\<lparr>store = (\<lambda>r. []), meas_set = [],
          data = [(''validate_drp.PA1.note'', 5::nat), (''date'', 6)],
          chain = [], cached_prefixes = {}\<rparr>"
  let ?t = "\<lparr>store = (\<lambda>r. [])(0 := [(''validate_drp.PA1.note'', 5::nat)]),
          meas_set = [(MetricName ''validate_drp.PA1'',
                       \<lparr>metric = ''validate_drp.PA1'', notes_data = 0\<rparr>)],
          data = [(''date'', 6)], chain = [], cached_prefixes = {}\<rparr>"
  have "set (fst (md_iter ?s)) = set (fst (md_iter ?t))
     \<and> (\<forall>key \<in> set (fst (md_iter ?s)).
           fst (md_getitem key ?s) = fst (md_getitem key ?t))"
    by (simp add: md_iter_def md_getitem_def refresh_chainmap_def prefixes_def ms_iter_def
          ms_items_def chain_maps_def chain_iter_def insert_commute)
  with md_eq_iff [of ?s ?t] show ?thesis by simp
qed

lemma refresh_rebuilds:
  "cached_prefixes w \<noteq> prefixes w \<Longrightarrow>
     chain (refresh_chainmap w) = map (\<lambda>(n, m). notes_data m) (meas_set w)"
  by (simp add: refresh_chainmap_def ms_items_def)

lemma synced_chain_maps:
  assumes "chain (refresh_chainmap w) = map (\<lambda>(n, m). notes_data m) (meas_set w)"
  shows "chain_maps (refresh_chainmap w)
           = data w # map (\<lambda>(n, m). store w (notes_data m)) (meas_set w)"
  using assms by (simp add: chain_maps_def refresh_chainmap_def split_def comp_def)

text \<open>
  C6 (as amended). \<open>length()\<close> is the number of distinct keys over the layers of the view.
  When the view lists the annotation stores of the current measurements (as it does after
  every rebuild) and no key occurs twice over the general store and these annotation
  stores, it is the number of keys of the general store plus the sum of the sizes of the
  annotation stores of the measurements of the bound set.
\<close>

theorem md_len_spec:
  "fst (md_len w) = card (\<Union>d \<in> set (chain_maps (refresh_chainmap w)). fst ` set d)
   \<and> (chain (refresh_chainmap w) = map (\<lambda>(n, m). notes_data m) (meas_set w)
        \<and> distinct (concat (map (map fst)
              (data w # map (\<lambda>(n, m). store w (notes_data m)) (meas_set w))))
      \<longrightarrow> fst (md_len w)
            = length (data w)
              + sum_list (map (\<lambda>(n, m). length (store w (notes_data m))) (meas_set w)))"
proof (intro conjI impI)
  show "fst (md_len w) = card (\<Union>d \<in> set (chain_maps (refresh_chainmap w)). fst ` set d)"
    by (simp add: md_len_def chain_len_card Let_def)
next
  assume h: "chain (refresh_chainmap w) = map (\<lambda>(n, m). notes_data m) (meas_set w)
        \<and> distinct (concat (map (map fst)
              (data w # map (\<lambda>(n, m). store w (notes_data m)) (meas_set w))))"
  let ?layers = "data w # map (\<lambda>(n, m). store w (notes_data m)) (meas_set w)"
  from h have maps: "chain_maps (refresh_chainmap w) = ?layers"
    by (simp add: synced_chain_maps)
  define ks where "ks = concat (map (map fst) ?layers)"
  from h have d: "distinct ks" by (simp add: ks_def)
  have "fst (md_len w) = length (remdups ks)"
    by (simp add: md_len_def chain_len_def chain_iter_def maps Let_def ks_def)
  also from d have "\<dots> = length ks" by (simp add: distinct_remdups_id)
  also have "\<dots> = sum_list (map length ?layers)"
    by (simp add: ks_def length_concat comp_def)
  also have "\<dots> = length (data w)
              + sum_list (map (\<lambda>(n, m). length (store w (notes_data m))) (meas_set w))"
    by (simp add: comp_def split_def)
  finally show "fst (md_len w)
            = length (data w)
              + sum_list (map (\<lambda>(n, m). length (store w (notes_data m))) (meas_set w))" .
qed

theorem md_len_spec_witness:
  "fst (md_len
     \<lparr>store = (\<lambda>r. [])(0 := [(''validate_drp.PA1.note'', 5::nat), (''validate_drp.PA1.b'', 1)]),
      meas_set = [(MetricName ''validate_drp.PA1'',
                   \<lparr>metric = ''validate_drp.PA1'', notes_data = 0\<rparr>)],
      data = [(''date'', 6)], chain = [], cached_prefixes = {}\<rparr>) = 3"
proof -
  let ?w = "\<lparr>store = (\<lambda>r. [])(0 := [(''validate_drp.PA1.note'', 5::nat), (''validate_drp.PA1.b'', 1)]),
      meas_set = [(MetricName ''validate_drp.PA1'',
                   \<lparr>metric = ''validate_drp.PA1'', notes_data = 0\<rparr>)],
      data = [(''date'', 6)], chain = [], cached_prefixes = {}\<rparr>"
  have h: "chain (refresh_chainmap ?w) = map (\<lambda>(n, m). notes_data m) (meas_set ?w)
        \<and> distinct (concat (map (map fst)
              (data ?w # map (\<lambda>(n, m). store ?w (notes_data m)) (meas_set ?w))))"
    by (simp add: refresh_chainmap_def prefixes_def ms_iter_def ms_items_def)
  with md_len_spec [of ?w] show ?thesis by simp
qed

text \<open>
  C6 as stated fails when a key is in two layers: after the key was set before and after
  its measurement joined the set, the general store and the annotation store hold one key
  each, and the length is 1, not 2.
\<close>

theorem md_len_collision_counterexample:
  "fst (md_len
     (snd (md_setitem ''validate_drp.PA1.note'' (2::nat)
        ((snd (md_setitem ''validate_drp.PA1.note'' 1 (snd (md_init (\<lambda>r. []) [] None))))
           \<lparr>meas_set := [(MetricName ''validate_drp.PA1'',
                           \<lparr>metric = ''validate_drp.PA1'', notes_data = 0\<rparr>)]\<rparr>)))) = 1
   \<and> length (data
     (snd (md_setitem ''validate_drp.PA1.note'' (2::nat)
        ((snd (md_setitem ''validate_drp.PA1.note'' 1 (snd (md_init (\<lambda>r. []) [] None))))
           \<lparr>meas_set := [(MetricName ''validate_drp.PA1'',
                           \<lparr>metric = ''validate_drp.PA1'', notes_data = 0\<rparr>)]\<rparr>)))) = 1
   \<and> length (store
     (snd (md_setitem ''validate_drp.PA1.note'' (2::nat)
        ((snd (md_setitem ''validate_drp.PA1.note'' 1 (snd (md_init (\<lambda>r. []) [] None))))
           \<lparr>meas_set := [(MetricName ''validate_drp.PA1'',
                           \<lparr>metric = ''validate_drp.PA1'', notes_data = 0\<rparr>)]\<rparr>))) 0) = 1"
  by (simp add: ev)

section \<open>Routed writes and cache rebuilds\<close>

lemma rstrip_dot_decomp:
  assumes "p \<noteq> []" and "last p = CHR ''.''"
  shows "\<exists>t. p = rstrip_dot p @ CHR ''.'' # t"
proof -
  let ?P = "\<lambda>c. c = CHR ''.''"
  let ?t = "rev (takeWhile ?P (rev p))"
  have "rstrip_dot p @ ?t = rev (takeWhile ?P (rev p) @ dropWhile ?P (rev p))"
    by (simp only: rstrip_dot_def rev_append)
  also have "\<dots> = p" by (simp only: takeWhile_dropWhile_id rev_rev_ident)
  finally have split: "p = rstrip_dot p @ ?t" by simp
  from assms obtain x xs where r: "rev p = x # xs" and x: "x = CHR ''.''"
    by (cases "rev p") (auto simp add: last_rev [symmetric] simp del: last_rev)
  then have ne: "?t \<noteq> []" by simp
  have "\<forall>c \<in> set ?t. c = CHR ''.''" by (auto dest: set_takeWhileD)
  with ne have "hd ?t = CHR ''.''" by (metis hd_in_set)
  with ne have "?t = CHR ''.'' # tl ?t" by (metis list.collapse)
  with split show ?thesis by metis
qed

lemma get_prefix_key_decomp:
  assumes "get_prefix key = Some p"
  shows "\<exists>t. key = rstrip_dot p @ CHR ''.'' # t"
proof -
  from get_prefix_last [OF assms] rstrip_dot_decomp
  obtain t where "p = rstrip_dot p @ CHR ''.'' # t" by blast
  moreover from get_prefix_is_prefix [OF assms] obtain r where "key = p @ r" by blast
  ultimately have "key = rstrip_dot p @ CHR ''.'' # (t @ r)" by (metis append_Cons append_assoc)
  then show ?thesis by blast
qed

lemma format_key_routed:
  assumes "get_prefix key = Some p" and "metric_name m = MetricName (rstrip_dot p)"
  shows "format_key m key = key"
proof -
  from get_prefix_key_decomp [OF assms(1)] obtain t
    where k: "key = (rstrip_dot p @ ''.'') @ t" by auto
  have "notes_prefix m = rstrip_dot p @ ''.''" by (simp add: notes_prefix_def assms(2))
  moreover from k have "take (length (rstrip_dot p @ ''.'')) key = rstrip_dot p @ ''.''"
    by (metis append_eq_conv_conj)
  ultimately show ?thesis by (simp add: format_key_def)
qed

lemma chain_getitem_agree:
  assumes "\<exists>d \<in> set layers. map_of d key = Some v"
    and "\<forall>d \<in> set layers. map_of d key = None \<or> map_of d key = Some v"
  shows "chain_getitem layers key = Inr v"
  using assms
proof (induction layers)
  case Nil
  then show ?case by simp
next
  case (Cons d layers)
  show ?case
  proof (cases "map_of d key")
    case None
    with Cons.prems have "\<exists>d \<in> set layers. map_of d key = Some v" by auto
    moreover from Cons.prems
    have "\<forall>d \<in> set layers. map_of d key = None \<or> map_of d key = Some v" by simp
    ultimately have "chain_getitem layers key = Inr v" by (rule Cons.IH)
    with None show ?thesis by simp
  next
    case (Some x)
    with Cons.prems have "x = v" by auto
    with Some show ?thesis by simp
  qed
qed

lemma refresh_chain_store_update:
  "chain (refresh_chainmap (w\<lparr>store := st\<rparr>)) = chain (refresh_chainmap w)"
  by (simp add: refresh_chainmap_def prefixes_def)

text \<open>
  C3 (as amended). Let the prefix of the key resolve to a measurement of the bound set,
  every measurement of the set being stored under its declared metric name. Then, in
  every state, \<open>set\<close> raises nothing, stores the value in that measurement's annotation
  store under the full original key and leaves the general store as it was; so the general
  store does not contain the key after the \<open>set\<close> when it did not before. If moreover
  the key is held neither by the general store nor by the annotation store of another
  measurement, and the view lists the current measurements, the following \<open>get\<close> returns
  the value.
\<close>

theorem md_set_get_routed:
  assumes pre: "get_prefix key = Some p"
    and present: "ms_getitem (KStr (rstrip_dot p)) (meas_set w) = Inr m"
    and inv: "\<forall>(n, m') \<in> set (meas_set w). n = metric_name m'"
  shows "fst (md_setitem key v w) = None
     \<and> store (snd (md_setitem key v w))
         = (store w)(notes_data m := dict_setitem key v (store w (notes_data m)))
     \<and> map_of (store (snd (md_setitem key v w)) (notes_data m)) key = Some v
     \<and> data (snd (md_setitem key v w)) = data w
     \<and> (map_of (data w) key = None \<longrightarrow>
          map_of (data (snd (md_setitem key v w))) key = None)
     \<and> (chain (refresh_chainmap w) = map (\<lambda>(n, m'). notes_data m') (meas_set w)
          \<and> map_of (data w) key = None
          \<and> (\<forall>(n, m') \<in> set (meas_set w).
                 notes_data m' \<noteq> notes_data m \<longrightarrow>
                 map_of (store w (notes_data m')) key = None)
          \<longrightarrow> fst (md_getitem key (snd (md_setitem key v w))) = Inr v)"
proof -
  let ?st = "(store w)(notes_data m := dict_setitem key v (store w (notes_data m)))"
  from present have look: "map_of (meas_set w) (MetricName (rstrip_dot p)) = Some m"
    by (auto simp add: ms_getitem_def split: option.splits)
  then have mem: "(MetricName (rstrip_dot p), m) \<in> set (meas_set w)" by (rule map_of_SomeD)
  with inv have name: "metric_name m = MetricName (rstrip_dot p)" by auto
  from look have cont: "ms_contains (KStr (rstrip_dot p)) (meas_set w)"
    by (simp add: ms_contains_def)
  have fk: "format_key m key = key" using pre name by (rule format_key_routed)
  have set_eq: "md_setitem key v w = (None, w\<lparr>store := ?st\<rparr>)"
    by (simp add: md_setitem_def pre cont present notes_setitem_def fk Let_def)
  have here: "map_of (?st (notes_data m)) key = Some v"
    by (simp add: dict_setitem_def update_conv')
  have get: "fst (md_getitem key (w\<lparr>store := ?st\<rparr>)) = Inr v"
    if sync: "chain (refresh_chainmap w) = map (\<lambda>(n, m'). notes_data m') (meas_set w)"
      and general: "map_of (data w) key = None"
      and others: "\<forall>(n, m') \<in> set (meas_set w).
                     notes_data m' \<noteq> notes_data m \<longrightarrow>
                     map_of (store w (notes_data m')) key = None"
  proof -
    let ?layers = "data w # map (\<lambda>(n, m'). ?st (notes_data m')) (meas_set w)"
    have maps: "chain_maps (refresh_chainmap (w\<lparr>store := ?st\<rparr>)) = ?layers"
      by (simp add: chain_maps_def refresh_chain_store_update sync split_def comp_def)
    have ex: "\<exists>d \<in> set ?layers. map_of d key = Some v"
    proof -
      from mem have "?st (notes_data m) \<in> set ?layers" by force
      with here show ?thesis by blast
    qed
    have all: "\<forall>d \<in> set ?layers. map_of d key = None \<or> map_of d key = Some v"
    proof
      fix d assume "d \<in> set ?layers"
      then consider "d = data w"
        | n m' where "(n, m') \<in> set (meas_set w)" "d = ?st (notes_data m')" by auto
      then show "map_of d key = None \<or> map_of d key = Some v"
      proof cases
        case 1
        with general show ?thesis by simp
      next
        case 2
        show ?thesis
        proof (cases "notes_data m' = notes_data m")
          case True
          with 2 here show ?thesis by simp
        next
          case False
          with 2 others have "map_of (store w (notes_data m')) key = None" by auto
          with 2 False show ?thesis by simp
        qed
      qed
    qed
    have "chain_getitem ?layers key = Inr v" using ex all by (rule chain_getitem_agree)
    then show ?thesis by (simp add: md_getitem_def maps Let_def)
  qed
  from set_eq here get show ?thesis by simp
qed

theorem md_set_get_routed_witness:
  "fst (md_setitem ''validate_drp.PA1.note'' (2::nat)
     \<lparr>store = (\<lambda>r. []),
      meas_set = [(MetricName ''validate_drp.PA1'',
                   \<lparr>metric = ''validate_drp.PA1'', notes_data = 0\<rparr>)],
      data = [(''validate_drp.PA1.note'', 1)], chain = [], cached_prefixes = {}\<rparr>) = None
   \<and> map_of (store (snd (md_setitem ''validate_drp.PA1.note'' (2::nat)
     \<lparr>store = (\<lambda>r. []),
      meas_set = [(MetricName ''validate_drp.PA1'',
                   \<lparr>metric = ''validate_drp.PA1'', notes_data = 0\<rparr>)],
      data = [(''validate_drp.PA1.note'', 1)], chain = [], cached_prefixes = {}\<rparr>)) 0)
       ''validate_drp.PA1.note'' = Some 2
   \<and> data (snd (md_setitem ''validate_drp.PA1.note'' (2::nat)
     \<lparr>store = (\<lambda>r. []),
      meas_set = [(MetricName ''validate_drp.PA1'',
                   \<lparr>metric = ''validate_drp.PA1'', notes_data = 0\<rparr>)],
      data = [(''validate_drp.PA1.note'', 1)], chain = [], cached_prefixes = {}\<rparr>))
       = [(''validate_drp.PA1.note'', 1)]
   \<and> fst (md_getitem ''validate_drp.PA1.note''
     (snd (md_setitem ''validate_drp.PA1.note'' (5::nat)
        \<lparr>store = (\<lambda>r. []),
         meas_set = [(MetricName ''validate_drp.PA1'',
                      \<lparr>metric = ''validate_drp.PA1'', notes_data = 0\<rparr>)],
         data = [(''date'', 6)], chain = [], cached_prefixes = {}\<rparr>))) = Inr 5
   \<and> map_of (data
     (snd (md_setitem ''validate_drp.PA1.note'' (5::nat)
        \<lparr>store = (\<lambda>r. []),
         meas_set = [(MetricName ''validate_drp.PA1'',
                      \<lparr>metric = ''validate_drp.PA1'', notes_data = 0\<rparr>)],
         data = [(''date'', 6)], chain = [], cached_prefixes = {}\<rparr>)))
       ''validate_drp.PA1.note'' = None"
proof -
  let ?m = "\<lparr>metric = ''validate_drp.PA1'', notes_data = 0\<rparr>"
  let ?w = "\<lparr>store = (\<lambda>r. []), meas_set = [(MetricName ''validate_drp.PA1'', ?m)],
         data = [(''date'', 6::nat)], chain = [], cached_prefixes = {}\<rparr>"
  let ?c = "\<lparr>store = (\<lambda>r. []), meas_set = [(MetricName ''validate_drp.PA1'', ?m)],
         data = [(''validate_drp.PA1.note'', 1::nat)], chain = [], cached_prefixes = {}\<rparr>"
  have pre: "get_prefix ''validate_drp.PA1.note'' = Some ''validate_drp.PA1.''"
    by (simp add: get_prefix_def prefix_pattern_def is_space_def)
  have present: "ms_getitem (KStr (rstrip_dot ''validate_drp.PA1.'')) (meas_set ?w) = Inr ?m"
    by (simp add: rstrip_dot_def ms_getitem_def)
  have inv: "\<forall>(n, m') \<in> set (meas_set ?w). n = metric_name m'"
    by (simp add: metric_name_def)
  have present_c: "ms_getitem (KStr (rstrip_dot ''validate_drp.PA1.'')) (meas_set ?c) = Inr ?m"
    by (simp add: rstrip_dot_def ms_getitem_def)
  have inv_c: "\<forall>(n, m') \<in> set (meas_set ?c). n = metric_name m'"
    by (simp add: metric_name_def)
  have provisos: "chain (refresh_chainmap ?w) = map (\<lambda>(n, m'). notes_data m') (meas_set ?w)
      \<and> map_of (data ?w) ''validate_drp.PA1.note'' = None
      \<and> (\<forall>(n, m') \<in> set (meas_set ?w). notes_data m' \<noteq> notes_data ?m \<longrightarrow>
             map_of (store ?w (notes_data m')) ''validate_drp.PA1.note'' = None)"
    by (simp add: refresh_chainmap_def prefixes_def ms_iter_def ms_items_def)
  from md_set_get_routed [OF pre present_c inv_c, of 2]
  have routed: "fst (md_setitem ''validate_drp.PA1.note'' (2::nat) ?c) = None
      \<and> map_of (store (snd (md_setitem ''validate_drp.PA1.note'' (2::nat) ?c)) 0)
            ''validate_drp.PA1.note'' = Some 2
      \<and> data (snd (md_setitem ''validate_drp.PA1.note'' (2::nat) ?c))
            = [(''validate_drp.PA1.note'', 1)]"
    by (simp add: dict_setitem_def)
  from md_set_get_routed [OF pre present inv, of 5] provisos
  have "fst (md_getitem ''validate_drp.PA1.note''
          (snd (md_setitem ''validate_drp.PA1.note'' 5 ?w))) = Inr 5
      \<and> map_of (data (snd (md_setitem ''validate_drp.PA1.note'' 5 ?w)))
            ''validate_drp.PA1.note'' = None"
    by simp
  with routed show ?thesis by simp
qed

text \<open>
  C3 as stated fails when the general store already holds the key (it was set before the
  measurement joined the bound set): the second \<open>set\<close> is routed to the annotation store,
  yet \<open>get\<close> does not return its value and the general store still contains the key.
\<close>

theorem md_set_get_routed_counterexample:
  "get_prefix ''validate_drp.PA1.note'' = Some ''validate_drp.PA1.''
   \<and> ms_contains (KStr (rstrip_dot ''validate_drp.PA1.''))
        [(MetricName ''validate_drp.PA1'', \<lparr>metric = ''validate_drp.PA1'', notes_data = 0\<rparr>)]
   \<and> fst (md_getitem ''validate_drp.PA1.note''
        (snd (md_setitem ''validate_drp.PA1.note'' (2::nat)
           ((snd (md_setitem ''validate_drp.PA1.note'' 1 (snd (md_init (\<lambda>r. []) [] None))))
              \<lparr>meas_set := [(MetricName ''validate_drp.PA1'',
                              \<lparr>metric = ''validate_drp.PA1'', notes_data = 0\<rparr>)]\<rparr>)))) \<noteq> Inr 2
   \<and> map_of (data
        (snd (md_setitem ''validate_drp.PA1.note'' (2::nat)
           ((snd (md_setitem ''validate_drp.PA1.note'' 1 (snd (md_init (\<lambda>r. []) [] None))))
              \<lparr>meas_set := [(MetricName ''validate_drp.PA1'',
                              \<lparr>metric = ''validate_drp.PA1'', notes_data = 0\<rparr>)]\<rparr>))))
        ''validate_drp.PA1.note'' \<noteq> None"
  by (simp add: ev)

text \<open>
  The view must list the current measurements: when a measurement has been replaced by
  another one of the same metric name since the last rebuild, \<open>set\<close> writes to the new
  measurement while \<open>get\<close> still reads the annotation store of the old one.
\<close>

lemma md_set_get_stale_example:
  "fst (md_getitem ''validate_drp.PA1.note''
     (snd (md_setitem ''validate_drp.PA1.note'' (2::nat)
        ((snd (md_init (\<lambda>r. [])
                 [(MetricName ''validate_drp.PA1'',
                   \<lparr>metric = ''validate_drp.PA1'', notes_data = 0\<rparr>)] None))
           \<lparr>meas_set := [(MetricName ''validate_drp.PA1'',
                           \<lparr>metric = ''validate_drp.PA1'', notes_data = 1\<rparr>)]\<rparr>))))
     = Inl KeyError"
  by (simp add: ev)

text \<open>
  C5 (as amended). When the set of metric names of the bound measurement set differs from
  the set cached at the last rebuild (a measurement was added under a new name, or removed
  so that its name left the set), the very next read rebuilds the view and caches the new
  names: \<open>get\<close>, \<open>contains\<close>, \<open>length\<close> and the iteration work on the general store
  followed by the annotation stores of exactly the current measurements. So the entries of
  a newly added measurement are visible, and a key of a removed measurement is visible only
  if the general store or a current measurement holds it too.
\<close>

theorem md_reads_after_rebuild:
  assumes "cached_prefixes w \<noteq> prefixes w"
  shows "chain (refresh_chainmap w) = map (\<lambda>(n, m). notes_data m) (meas_set w)
     \<and> cached_prefixes (refresh_chainmap w) = prefixes w
     \<and> fst (md_getitem key w)
         = chain_getitem (data w # map (\<lambda>(n, m). store w (notes_data m)) (meas_set w)) key
     \<and> fst (md_len w)
         = chain_len (data w # map (\<lambda>(n, m). store w (notes_data m)) (meas_set w))
     \<and> fst (md_iter w)
         = chain_iter (data w # map (\<lambda>(n, m). store w (notes_data m)) (meas_set w))
     \<and> (fst (md_contains key w) \<longleftrightarrow>
          map_of (data w) key \<noteq> None
          \<or> (\<exists>(n, m) \<in> set (meas_set w). map_of (store w (notes_data m)) key \<noteq> None))"
proof -
  let ?layers = "data w # map (\<lambda>(n, m). store w (notes_data m)) (meas_set w)"
  from assms have c: "chain (refresh_chainmap w) = map (\<lambda>(n, m). notes_data m) (meas_set w)"
    by (rule refresh_rebuilds)
  then have maps: "chain_maps (refresh_chainmap w) = ?layers" by (rule synced_chain_maps)
  from assms have p: "cached_prefixes (refresh_chainmap w) = prefixes w"
    by (simp add: refresh_chainmap_def)
  have "chain_contains ?layers key \<longleftrightarrow>
          map_of (data w) key \<noteq> None
          \<or> (\<exists>(n, m) \<in> set (meas_set w). map_of (store w (notes_data m)) key \<noteq> None)"
    by (fastforce simp add: chain_contains_def list_ex_iff split_def)
  then have "fst (md_contains key w) \<longleftrightarrow>
          map_of (data w) key \<noteq> None
          \<or> (\<exists>(n, m) \<in> set (meas_set w). map_of (store w (notes_data m)) key \<noteq> None)"
    by (simp add: md_contains_def maps Let_def)
  with c p show ?thesis
    by (simp add: md_getitem_def md_len_def md_iter_def maps Let_def)
qed

theorem md_reads_after_rebuild_witness:
  "fst (md_contains ''validate_drp.PA2.note''
     ((snd (md_init ((\<lambda>r. [])(1 := [(''validate_drp.PA2.note'', 5::nat)]))
              [(MetricName ''validate_drp.PA1'',
                \<lparr>metric = ''validate_drp.PA1'', notes_data = 0\<rparr>)] None))
        \<lparr>meas_set := [(MetricName ''validate_drp.PA1'',
                        \<lparr>metric = ''validate_drp.PA1'', notes_data = 0\<rparr>),
                       (MetricName ''validate_drp.PA2'',
                        \<lparr>metric = ''validate_drp.PA2'', notes_data = 1\<rparr>)]\<rparr>))"
proof -
  let ?w = "(snd (md_init ((\<lambda>r. [])(1 := [(''validate_drp.PA2.note'', 5::nat)]))
              [(MetricName ''validate_drp.PA1'',
                \<lparr>metric = ''validate_drp.PA1'', notes_data = 0\<rparr>)] None))
        \<lparr>meas_set := [(MetricName ''validate_drp.PA1'',
                        \<lparr>metric = ''validate_drp.PA1'', notes_data = 0\<rparr>),
                       (MetricName ''validate_drp.PA2'',
                        \<lparr>metric = ''validate_drp.PA2'', notes_data = 1\<rparr>)]\<rparr>"
  have h: "cached_prefixes ?w \<noteq> prefixes ?w"
    by (simp add: md_init_def refresh_chainmap_def prefixes_def ms_iter_def ms_items_def)
  have "map_of (data ?w) ''validate_drp.PA2.note'' \<noteq> None
          \<or> (\<exists>(n, m) \<in> set (meas_set ?w).
                map_of (store ?w (notes_data m)) ''validate_drp.PA2.note'' \<noteq> None)"
    by (simp add: md_init_def refresh_chainmap_def prefixes_def ms_iter_def ms_items_def)
  with md_reads_after_rebuild [OF h, of "''validate_drp.PA2.note''"] show ?thesis by blast
qed

text \<open>
  C5 as stated fails for a change of membership that keeps the set of metric names: the
  measurement of a metric is removed and another measurement of the same metric is added
  before the next read. No rebuild happens; the annotation of the added measurement is not
  visible and the annotation of the removed one still is.
\<close>

theorem md_reads_same_name_counterexample:
  "ms_delitem (KStr ''validate_drp.PA1'')
      [(MetricName ''validate_drp.PA1'', \<lparr>metric = ''validate_drp.PA1'', notes_data = 0\<rparr>)]
     = Inr []
   \<and> ms_insert (Meas \<lparr>metric = ''validate_drp.PA1'', notes_data = 1\<rparr>) []
     = Inr [(MetricName ''validate_drp.PA1'', \<lparr>metric = ''validate_drp.PA1'', notes_data = 1\<rparr>)]
   \<and> fst (md_contains ''validate_drp.PA1.new''
       ((snd (md_init ((\<lambda>r. [])(0 := [(''validate_drp.PA1.old'', 4::nat)],
                                 1 := [(''validate_drp.PA1.new'', 5)]))
                [(MetricName ''validate_drp.PA1'',
                  \<lparr>metric = ''validate_drp.PA1'', notes_data = 0\<rparr>)] None))
          \<lparr>meas_set := [(MetricName ''validate_drp.PA1'',
                          \<lparr>metric = ''validate_drp.PA1'', notes_data = 1\<rparr>)]\<rparr>)) = False
   \<and> fst (md_contains ''validate_drp.PA1.old''
       ((snd (md_init ((\<lambda>r. [])(0 := [(''validate_drp.PA1.old'', 4::nat)],
                                 1 := [(''validate_drp.PA1.new'', 5)]))
                [(MetricName ''validate_drp.PA1'',
                  \<lparr>metric = ''validate_drp.PA1'', notes_data = 0\<rparr>)] None))
          \<lparr>meas_set := [(MetricName ''validate_drp.PA1'',
                          \<lparr>metric = ''validate_drp.PA1'', notes_data = 1\<rparr>)]\<rparr>)) = True"
  by (simp add: ev ms_delitem_def)

end
